theory Spec2Isabelle
  imports Main "HOL-Library.Sublist" "HOL-Library.AList" "HOL-Library.Char_ord"
begin

section \<open>Strings\<close>

text \<open>
  A JavaScript string is modelled as a \<^typ>\<open>string\<close>: the list of its code units, here
  restricted to one byte each (a user-agent string is the value of an HTTP header).
  \<open>String.prototype.includes\<close> is substring search.
\<close>

fun js_includes :: "string \<Rightarrow> string \<Rightarrow> bool" where
  "js_includes [] m = (m = [])"
| "js_includes (x # xs) m = (prefix m (x # xs) \<or> js_includes xs m)"

text \<open>
  \<open>String.prototype.replace\<close> with a string pattern and a replacement without \<open>$\<close>:
  only the first occurrence is replaced.
\<close>

fun str_replace :: "string \<Rightarrow> string \<Rightarrow> string \<Rightarrow> string" where
  "str_replace pat rep [] = (if pat = [] then rep else [])"
| "str_replace pat rep (x # xs) =
     (if prefix pat (x # xs) then rep @ drop (length pat) (x # xs)
      else x # str_replace pat rep xs)"

section \<open>Regular expressions\<close>

text \<open>
  The regular-expression literals of \<open>metadata.ts\<close> use literals, the classes \<open>\d\<close>,
  \<open>.\<close> and \<open>[._]\<close>, sequence, alternation, \<open>*\<close> and \<open>+\<close> on a class, capturing groups
  and one negative lookahead. The matcher below is the backtracking matcher of
  ECMAScript restricted to these forms: it returns, in priority order, every way of
  matching at the start of the input, as the rest of the input and the captures.

  With the flag \<open>i\<close> (and without \<open>u\<close>) two characters match when their upper-case
  forms agree; a character outside ASCII never canonicalises to an ASCII one, so
  against the ASCII patterns of the source only the ASCII letters fold.
\<close>

definition is_lower :: "char \<Rightarrow> bool" where
  "is_lower ch = (CHR ''a'' \<le> ch \<and> ch \<le> CHR ''z'')"

definition canon :: "char \<Rightarrow> char" where
  \<comment> \<open>the upper-case form of an ASCII letter: its code minus 32, that is bit 5 cleared\<close>
  "canon ch =
     (if is_lower ch
      then (case ch of Char b0 b1 b2 b3 b4 b5 b6 b7 \<Rightarrow> Char b0 b1 b2 b3 b4 False b6 b7)
      else ch)"

definition chr_eq :: "bool \<Rightarrow> char \<Rightarrow> char \<Rightarrow> bool" where
  "chr_eq icase a b = (if icase then canon a = canon b else a = b)"

text \<open>A literal matches at the start of the input, character by character.\<close>

fun lit_prefix :: "bool \<Rightarrow> string \<Rightarrow> string \<Rightarrow> bool" where
  "lit_prefix icase [] s = True"
| "lit_prefix icase (a # l) [] = False"
| "lit_prefix icase (a # l) (x # xs) = (if chr_eq icase a x then lit_prefix icase l xs else False)"

datatype cclass = Digit | AnyChar | OneOf string

definition line_terminator :: "char \<Rightarrow> bool" where
  \<comment> \<open>what \<open>.\<close> does not match: LF and CR (U+2028 and U+2029 are not single bytes)\<close>
  "line_terminator ch = (ch = CHR 0x0A \<or> ch = CHR 0x0D)"

definition is_digit :: "char \<Rightarrow> bool" where
  "is_digit ch = (CHR ''0'' \<le> ch \<and> ch \<le> CHR ''9'')"

fun in_class :: "bool \<Rightarrow> cclass \<Rightarrow> char \<Rightarrow> bool" where
  "in_class icase Digit ch = is_digit ch"
| "in_class icase AnyChar ch = (\<not> line_terminator ch)"
| "in_class icase (OneOf cs) ch =
     (if icase then canon ch \<in> set (map canon cs) else ch \<in> set cs)"

datatype regex =
    Lit string
  | Cls cclass
  | Seq regex regex
  | Alt regex regex
  | Star cclass
  | Group nat regex
  | NegLookahead regex

type_synonym captures = "(nat \<times> string) list"

fun rmatch :: "bool \<Rightarrow> regex \<Rightarrow> string \<Rightarrow> captures \<Rightarrow> (string \<times> captures) list" where
  "rmatch icase (Lit l) s c =
     (if lit_prefix icase l s then [(drop (length l) s, c)] else [])"
| "rmatch icase (Cls k) [] c = []"
| "rmatch icase (Cls k) (x # xs) c = (if in_class icase k x then [(xs, c)] else [])"
| "rmatch icase (Seq a b) s c =
     concat (map (\<lambda>p. rmatch icase b (fst p) (snd p)) (rmatch icase a s c))"
| "rmatch icase (Alt a b) s c = rmatch icase a s c @ rmatch icase b s c"
| "rmatch icase (Star k) [] c = [([], c)]"
| "rmatch icase (Star k) (x # xs) c =
     (if in_class icase k x then rmatch icase (Star k) xs c @ [(x # xs, c)]
      else [(x # xs, c)])"
| "rmatch icase (Group n r) s c =
     map (\<lambda>p. (fst p, (n, take (length s - length (fst p)) s) # snd p)) (rmatch icase r s c)"
| "rmatch icase (NegLookahead r) s c = (if rmatch icase r s c = [] then [(s, c)] else [])"

text \<open>\<open>k+\<close> is \<open>k\<close> followed by \<open>k*\<close>; an alternation of several branches nests to the right.\<close>

definition Plus :: "cclass \<Rightarrow> regex" where
  "Plus k = Seq (Cls k) (Star k)"

fun alts :: "regex list \<Rightarrow> regex" where
  "alts [] = NegLookahead (Lit [])"
| "alts [r] = r"
| "alts (r # rs) = Alt r (alts rs)"

text \<open>
  \<open>RegExp.prototype.exec\<close> for a regular expression without the flag \<open>g\<close>: the first
  start position, from the left, at which the pattern matches, with the captures of
  the match of highest priority there. \<open>test\<close> asks whether there is one;
  \<open>match(...)?.[n]\<close> reads capture \<open>n\<close>, which is \<open>undefined\<close> (here \<open>None\<close>) without a
  match.
\<close>

fun re_exec :: "bool \<Rightarrow> regex \<Rightarrow> string \<Rightarrow> captures option" where
  "re_exec icase r [] = (case rmatch icase r [] [] of [] \<Rightarrow> None | p # _ \<Rightarrow> Some (snd p))"
| "re_exec icase r (x # xs) =
     (case rmatch icase r (x # xs) [] of [] \<Rightarrow> re_exec icase r xs | p # _ \<Rightarrow> Some (snd p))"

definition re_test :: "bool \<Rightarrow> regex \<Rightarrow> string \<Rightarrow> bool" where
  "re_test icase r s = (re_exec icase r s \<noteq> None)"

definition or_else :: "string option \<Rightarrow> string \<Rightarrow> string" where
  \<comment> \<open>\<open>v || d\<close> on a value that is a string or \<open>undefined\<close>: the empty string is falsy\<close>
  "or_else v d = (case v of None \<Rightarrow> d | Some s \<Rightarrow> if s = [] then d else s)"

section \<open>The classifiers of \<open>collectTechnicalMetadata\<close>\<close>

record browser_id =
  name :: string
  version :: string

definition version_of :: "string \<Rightarrow> string \<Rightarrow> string" where
  \<comment> \<open>\<open>ua.match(/marker\/(\d+)/)?.[1] || 'unknown'\<close>\<close>
  "version_of marker ua =
     or_else (case re_exec False (Seq (Lit (marker @ ''/'')) (Group 1 (Plus Digit))) ua of
                None \<Rightarrow> None | Some c \<Rightarrow> map_of c 1) ''unknown''"

definition getBrowser :: "string \<Rightarrow> browser_id" where
  "getBrowser ua =
    (if js_includes ua ''Firefox'' then \<lparr>name = ''Firefox'', version = version_of ''Firefox'' ua\<rparr>
     else if js_includes ua ''Edg'' then \<lparr>name = ''Edge'', version = version_of ''Edg'' ua\<rparr>
     else if js_includes ua ''Chrome'' then \<lparr>name = ''Chrome'', version = version_of ''Chrome'' ua\<rparr>
     else if js_includes ua ''Safari'' then \<lparr>name = ''Safari'', version = version_of ''Version'' ua\<rparr>
     else \<lparr>name = ''Unknown'', version = ''unknown''\<rparr>)"

datatype js_error = TypeError | SyntaxError | OtherError string

definition mac_version_re :: regex where
  \<comment> \<open>\<open>/Mac OS X (\d+[._]\d+)/\<close>\<close>
  "mac_version_re =
     Seq (Lit ''Mac OS X '') (Group 1 (Seq (Plus Digit) (Seq (Cls (OneOf ''._'')) (Plus Digit))))"

definition mac_version :: "string \<Rightarrow> js_error + string" where
  \<comment> \<open>\<open>ua.match(re)?.[1].replace('_', '.') || ''\<close>: the optional chain stops at a failed
      match; a match whose group 1 is \<open>undefined\<close> would raise at \<open>.replace\<close>\<close>
  "mac_version ua =
     (case re_exec False mac_version_re ua of
        None \<Rightarrow> Inr (or_else None '''')
      | Some c \<Rightarrow>
          (case map_of c 1 of
             None \<Rightarrow> Inl TypeError
           | Some v \<Rightarrow> Inr (or_else (Some (str_replace ''_'' ''.'' v)) '''')))"

definition getOS :: "string \<Rightarrow> js_error + string" where
  "getOS ua =
    (if js_includes ua ''Windows NT 10'' then Inr ''Windows 10/11''
     else if js_includes ua ''Windows'' then Inr ''Windows''
     else if js_includes ua ''Mac OS X'' then
       (case mac_version ua of Inl e \<Rightarrow> Inl e | Inr v \<Rightarrow> Inr (''macOS '' @ v))
     else if js_includes ua ''Linux'' then Inr ''Linux''
     else if js_includes ua ''Android'' then Inr ''Android''
     else if js_includes ua ''iOS'' \<or> js_includes ua ''iPhone'' \<or> js_includes ua ''iPad''
       then Inr ''iOS''
     else Inr ''Unknown'')"

datatype device_type = Desktop | Mobile | Tablet

definition tablet_re :: regex where
  \<comment> \<open>\<open>/(tablet|ipad|playbook|silk)|(android(?!.*mobi))/i\<close>\<close>
  "tablet_re =
     Alt (Group 1 (alts [Lit ''tablet'', Lit ''ipad'', Lit ''playbook'', Lit ''silk'']))
         (Group 2 (Seq (Lit ''android'')
                       (NegLookahead (Seq (Star AnyChar) (Lit ''mobi'')))))"

definition mobile_re :: regex where
  \<comment> \<open>\<open>/Mobile|Android|iP(hone|od)|IEMobile|BlackBerry|Kindle|Silk-Accelerated|(hpw|web)OS|Opera M(obi|ini)/\<close>\<close>
  "mobile_re =
     alts [Lit ''Mobile'', Lit ''Android'',
           Seq (Lit ''iP'') (Group 1 (Alt (Lit ''hone'') (Lit ''od''))),
           Lit ''IEMobile'', Lit ''BlackBerry'', Lit ''Kindle'', Lit ''Silk-Accelerated'',
           Seq (Group 2 (Alt (Lit ''hpw'') (Lit ''web''))) (Lit ''OS''),
           Seq (Lit ''Opera M'') (Group 3 (Alt (Lit ''obi'') (Lit ''ini'')))]"

definition getDeviceType :: "string \<Rightarrow> device_type" where
  "getDeviceType ua =
    (if re_test True tablet_re ua then Tablet
     else if re_test False mobile_re ua then Mobile
     else Desktop)"

definition getTimeOfDay :: "int \<Rightarrow> string" where
  "getTimeOfDay hour =
    (if hour \<ge> 5 \<and> hour < 12 then ''Morning''
     else if hour \<ge> 12 \<and> hour < 17 then ''Afternoon''
     else if hour \<ge> 17 \<and> hour < 21 then ''Evening''
     else ''Night'')"

section \<open>JavaScript values and objects\<close>

text \<open>
  An object is the list of its own properties in insertion order, with distinct keys.
  A property bound to \<open>undefined\<close> is a property of the object; a key that is not in the
  list is absent from it. Numbers are carried as they are and never computed with.
\<close>

datatype jsval =
    JUndefined | JNull | JBool bool | JNum int | JStr string
  | JArr "jsval list" | JObj "(string \<times> jsval) list"

type_synonym object = "(string \<times> jsval) list"

definition nullish :: "jsval \<Rightarrow> bool" where
  "nullish v = (v = JUndefined \<or> v = JNull)"

fun truthy :: "jsval \<Rightarrow> bool" where
  "truthy JUndefined = False"
| "truthy JNull = False"
| "truthy (JBool b) = b"
| "truthy (JNum n) = (n \<noteq> 0)"
| "truthy (JStr s) = (s \<noteq> [])"
| "truthy (JArr xs) = True"
| "truthy (JObj ps) = True"

definition js_or :: "jsval \<Rightarrow> jsval \<Rightarrow> jsval" where
  "js_or a b = (if truthy a then a else b)"

fun prop_of :: "jsval \<Rightarrow> string \<Rightarrow> jsval" where
  \<comment> \<open>\<open>v.k\<close> on a value that is neither \<open>null\<close> nor \<open>undefined\<close>, for a key \<open>k\<close> that names no
      built-in property of strings, numbers, booleans or arrays\<close>
  "prop_of (JObj ps) k = (case map_of ps k of None \<Rightarrow> JUndefined | Some v \<Rightarrow> v)"
| "prop_of v k = JUndefined"

definition get_prop :: "jsval \<Rightarrow> string \<Rightarrow> js_error + jsval" where
  \<comment> \<open>\<open>v.k\<close>: reading a property of \<open>null\<close> or \<open>undefined\<close> raises\<close>
  "get_prop v k = (if nullish v then Inl TypeError else Inr (prop_of v k))"

definition opt_prop :: "jsval \<Rightarrow> string \<Rightarrow> jsval" where
  \<comment> \<open>\<open>v?.k\<close>\<close>
  "opt_prop v k = (if nullish v then JUndefined else prop_of v k)"

definition obj_spread :: "object list \<Rightarrow> object" where
  \<comment> \<open>\<open>{...a, ...b}\<close>: the properties are defined in order, a later one replacing the
      value of an earlier one with the same key\<close>
  "obj_spread objs = fold (\<lambda>p. AList.update (fst p) (snd p)) (concat objs) []"

section \<open>Synchronous capture\<close>

text \<open>
  \<open>collectTechnicalMetadata\<close> reads the ambient state of the browser. The state it reads
  is passed in as a record.
\<close>

record environment =
  nav_userAgent :: string
  nav_language :: string
  nav_cookieEnabled :: bool
  nav_doNotTrack :: jsval
  nav_connection :: jsval
  nav_mozConnection :: jsval
  nav_webkitConnection :: jsval
  screen_width :: nat
  screen_height :: nat
  win_innerWidth :: nat
  win_innerHeight :: nat
  win_href :: string
  doc_referrer :: string
  intl_timeZone :: string
  now_iso :: string
  now_day :: nat
  now_hours :: int

record browser_info = browser_id +
  userAgent :: string

record device_info =
  device_kind :: device_type
  os :: string
  screenResolution :: string
  viewportSize :: string

record session_info =
  referrer :: string
  landingPage :: string
  timestamp :: string
  dayOfWeek :: "string option"
  timeOfDay :: string

record technical_info =
  jsEnabled :: bool
  cookiesEnabled :: bool
  doNotTrack :: bool
  connectionType :: jsval

record TechnicalMetadata =
  browser :: browser_info
  device :: device_info
  location :: object
  session :: session_info
  technical :: technical_info

text \<open>A natural number in a template literal is printed in decimal.\<close>

fun show_nat :: "nat \<Rightarrow> string" where
  "show_nat n =
     (if n < 10 then [''0123456789'' ! n]
      else show_nat (n div 10) @ [''0123456789'' ! (n mod 10)])"

declare show_nat.simps [simp del]

definition days :: "string list" where
  "days = [''Sunday'', ''Monday'', ''Tuesday'', ''Wednesday'', ''Thursday'', ''Friday'',
           ''Saturday'']"

definition getConnectionType :: "environment \<Rightarrow> jsval" where
  "getConnectionType env =
     (let connection = js_or (nav_connection env)
                         (js_or (nav_mozConnection env) (nav_webkitConnection env))
      in js_or (opt_prop connection ''effectiveType'')
           (js_or (opt_prop connection ''type'') JUndefined))"

definition collectTechnicalMetadata :: "environment \<Rightarrow> js_error + TechnicalMetadata" where
  "collectTechnicalMetadata env =
    (let ua = nav_userAgent env in
     case getOS ua of
       Inl e \<Rightarrow> Inl e
     | Inr os_label \<Rightarrow> Inr
        \<lparr>browser = \<lparr>name = name (getBrowser ua), version = version (getBrowser ua),
                     userAgent = ua\<rparr>,
         device = \<lparr>device_kind = getDeviceType ua, os = os_label,
                    screenResolution =
                      show_nat (screen_width env) @ ''x'' @ show_nat (screen_height env),
                    viewportSize =
                      show_nat (win_innerWidth env) @ ''x'' @ show_nat (win_innerHeight env)\<rparr>,
         location = [(''timezone'', JStr (intl_timeZone env)),
                     (''language'', JStr (nav_language env))],
         session = \<lparr>referrer = or_else (Some (doc_referrer env)) ''Direct'',
                     landingPage = win_href env,
                     timestamp = now_iso env,
                     dayOfWeek = (if now_day env < length days then Some (days ! now_day env)
                                  else None),
                     timeOfDay = getTimeOfDay (now_hours env)\<rparr>,
         technical = \<lparr>jsEnabled = True,
                       cookiesEnabled = nav_cookieEnabled env,
                       doNotTrack = (nav_doNotTrack env = JStr ''1''),
                       connectionType = getConnectionType env\<rparr>\<rparr>)"

section \<open>Geolocation enrichment\<close>

text \<open>
  \<open>getGeolocation\<close> awaits \<open>fetch\<close> and then \<open>response.json()\<close>. Each of the two promises
  either rejects with an error or fulfils; what the network does is the argument of
  the model. The status of the response is part of it, and the source never reads it.
  The result is the promise the function returns together with the calls of
  \<open>console.error\<close> it made.
\<close>

datatype 'a promise = Rejected js_error | Fulfilled 'a

record response =
  status :: nat
  json_body :: "jsval promise"

type_synonym console = "(string \<times> js_error) list"

definition geo_try :: "response promise \<Rightarrow> js_error + object" where
  \<comment> \<open>the \<open>try\<close> block: \<open>Inl\<close> is the value thrown\<close>
  "geo_try net =
    (case net of
       Rejected e \<Rightarrow> Inl e
     | Fulfilled resp \<Rightarrow>
        (case json_body resp of
           Rejected e \<Rightarrow> Inl e
         | Fulfilled data \<Rightarrow>
            (case get_prop data ''country_name'' of
               Inl e \<Rightarrow> Inl e
             | Inr country \<Rightarrow>
                (case get_prop data ''city'' of
                   Inl e \<Rightarrow> Inl e
                 | Inr city \<Rightarrow>
                    (case get_prop data ''country_code'' of
                       Inl e \<Rightarrow> Inl e
                     | Inr code \<Rightarrow>
                         Inr [(''country'', country), (''city'', city),
                              (''countryCode'', code)])))))"

definition getGeolocation :: "response promise \<Rightarrow> object promise \<times> console" where
  "getGeolocation net =
    (case geo_try net of
       Inr geo \<Rightarrow> (Fulfilled geo, [])
     | Inl e \<Rightarrow> (Fulfilled [], [(''Failed to get geolocation:'', e)]))"

section \<open>The merge of \<open>handleSubmit\<close>\<close>

definition merge_metadata :: "TechnicalMetadata \<Rightarrow> object \<Rightarrow> TechnicalMetadata" where
  \<comment> \<open>\<open>{...technicalData, location: {...technicalData.location, ...geoData}}\<close>\<close>
  "merge_metadata technicalData geoData =
     technicalData\<lparr>location := obj_spread [location technicalData, geoData]\<rparr>"

section \<open>Predicates of the statements\<close>

text \<open>
  \<open>includes_ci s m\<close>: the string \<open>s\<close> contains \<open>m\<close> in some letter case.
  \<open>same_line_ahead m s\<close>: \<open>m\<close> occurs in \<open>s\<close>, in some letter case, with no line terminator
  before it; this is what the lookahead \<open>.*m\<close> of a pattern with the flag \<open>i\<close> finds.
\<close>

fun includes_ci :: "string \<Rightarrow> string \<Rightarrow> bool" where
  "includes_ci [] m = (m = [])"
| "includes_ci (x # xs) m = (lit_prefix True m (x # xs) \<or> includes_ci xs m)"

definition same_line_ahead :: "string \<Rightarrow> string \<Rightarrow> bool" where
  "same_line_ahead m s \<longleftrightarrow>
     (\<exists>l r. s = l @ r \<and> (\<forall>ch \<in> set l. \<not> line_terminator ch) \<and> lit_prefix True m r)"

text \<open>An ambient state, and the record captured from it.\<close>

definition sample_env :: environment where
  "sample_env =
     \<lparr>nav_userAgent = ''curl/8.4.0'', nav_language = ''en-GB'', nav_cookieEnabled = True,
      nav_doNotTrack = JNull, nav_connection = JUndefined, nav_mozConnection = JUndefined,
      nav_webkitConnection = JUndefined, screen_width = 1920, screen_height = 1080,
      win_innerWidth = 1280, win_innerHeight = 720, win_href = ''https://example.org/'',
      doc_referrer = [], intl_timeZone = ''Africa/Accra'',
      now_iso = ''2025-01-01T09:30:00.000Z'', now_day = 3, now_hours = 9\<rparr>"

definition sample_metadata :: TechnicalMetadata where
  "sample_metadata =
     \<lparr>browser = \<lparr>name = ''Unknown'', version = ''unknown'', userAgent = ''curl/8.4.0''\<rparr>,
      device = \<lparr>device_kind = Desktop, os = ''Unknown'', screenResolution = ''1920x1080'',
                 viewportSize = ''1280x720''\<rparr>,
      location = [(''timezone'', JStr ''Africa/Accra''), (''language'', JStr ''en-GB'')],
      session = \<lparr>referrer = ''Direct'', landingPage = ''https://example.org/'',
                  timestamp = ''2025-01-01T09:30:00.000Z'', dayOfWeek = Some ''Wednesday'',
                  timeOfDay = ''Morning''\<rparr>,
      technical = \<lparr>jsEnabled = True, cookiesEnabled = True, doNotTrack = False,
                    connectionType = JUndefined\<rparr>\<rparr>"

section \<open>Lemmas about strings and the matcher\<close>

declare rmatch.simps [simp del]

lemma js_includes_sublist: "js_includes s m \<longleftrightarrow> sublist m s"
  by (induction s) (auto simp: sublist_Cons_right)

lemma js_includes_suffix: "js_includes s m \<longleftrightarrow> (\<exists>t. suffix t s \<and> prefix m t)"
  by (simp add: js_includes_sublist sublist_altdef')

lemma lit_prefix_False: "lit_prefix False l s = prefix l s"
proof (induction l arbitrary: s)
  case Nil
  show ?case by simp
next
  case (Cons a l)
  show ?case by (cases s) (auto simp: chr_eq_def Cons.IH)
qed

lemma lit_prefix_append:
  "lit_prefix i (a @ b) s = (lit_prefix i a s \<and> lit_prefix i b (drop (length a) s))"
proof (induction a arbitrary: s)
  case Nil
  show ?case by simp
next
  case (Cons x a)
  show ?case by (cases s) (auto simp: Cons.IH)
qed

lemma lit_prefix_length: "lit_prefix i l s \<Longrightarrow> length l \<le> length s"
proof (induction l arbitrary: s)
  case Nil
  show ?case by simp
next
  case (Cons a l)
  then show ?case by (cases s) (auto split: if_splits)
qed

lemma includes_ci_suffix: "includes_ci s m \<longleftrightarrow> (\<exists>t. suffix t s \<and> lit_prefix True m t)"
proof (induction s)
  case Nil
  show ?case by (cases m) auto
next
  case (Cons x xs)
  show ?case by (auto simp: Cons.IH suffix_Cons)
qed

lemma re_exec_None_iff:
  "re_exec i r s = None \<longleftrightarrow> (\<forall>t. suffix t s \<longrightarrow> rmatch i r t [] = [])"
  by (induction s) (auto simp: suffix_Cons split: list.splits)

lemma re_test_iff: "re_test i r s \<longleftrightarrow> (\<exists>t. suffix t s \<and> rmatch i r t [] \<noteq> [])"
  by (auto simp: re_test_def re_exec_None_iff)

lemma re_exec_skip:
  "(\<And>t. suffix t (pre @ s) \<Longrightarrow> length s < length t \<Longrightarrow> rmatch i r t [] = [])
     \<Longrightarrow> re_exec i r (pre @ s) = re_exec i r s"
proof (induction pre)
  case Nil
  show ?case by simp
next
  case (Cons x pre)
  have "rmatch i r (x # pre @ s) [] = []"
    using Cons.prems [of "x # pre @ s"] by simp
  moreover have "re_exec i r (pre @ s) = re_exec i r s"
    by (rule Cons.IH) (use Cons.prems in \<open>auto simp: suffix_Cons\<close>)
  ultimately show ?case by simp
qed

lemma rmatch_Star_iff:
  "(t, c') \<in> set (rmatch i (Star k) s c) \<longleftrightarrow>
     c' = c \<and> (\<exists>l. s = l @ t \<and> (\<forall>ch \<in> set l. in_class i k ch))"
proof (induction s)
  case Nil
  show ?case by (auto simp: rmatch.simps)
next
  case (Cons x xs)
  show ?case
  proof
    assume "(t, c') \<in> set (rmatch i (Star k) (x # xs) c)"
    then consider "in_class i k x" "(t, c') \<in> set (rmatch i (Star k) xs c)"
      | "t = x # xs" "c' = c"
      by (auto simp: rmatch.simps split: if_splits)
    then show "c' = c \<and> (\<exists>l. x # xs = l @ t \<and> (\<forall>ch \<in> set l. in_class i k ch))"
    proof cases
      case 1
      then obtain l where "c' = c" "xs = l @ t" "\<forall>ch \<in> set l. in_class i k ch"
        using Cons.IH by auto
      with 1 have "x # xs = (x # l) @ t \<and> (\<forall>ch \<in> set (x # l). in_class i k ch)" by simp
      with \<open>c' = c\<close> show ?thesis by blast
    next
      case 2
      then have "x # xs = [] @ t \<and> (\<forall>ch \<in> set []. in_class i k ch)" by simp
      with 2 show ?thesis by blast
    qed
  next
    assume "c' = c \<and> (\<exists>l. x # xs = l @ t \<and> (\<forall>ch \<in> set l. in_class i k ch))"
    then obtain l where c: "c' = c" and l: "x # xs = l @ t" "\<forall>ch \<in> set l. in_class i k ch"
      by blast
    show "(t, c') \<in> set (rmatch i (Star k) (x # xs) c)"
    proof (cases l)
      case Nil
      with l c show ?thesis by (auto simp: rmatch.simps)
    next
      case (Cons a l')
      with l have "a = x" "xs = l' @ t" "in_class i k x" "\<forall>ch \<in> set l'. in_class i k ch"
        by auto
      with c Cons.IH show ?thesis by (auto simp: rmatch.simps)
    qed
  qed
qed

lemma rmatch_Seq_nonempty:
  "rmatch i (Seq a b) s c \<noteq> [] \<longleftrightarrow>
     (\<exists>p \<in> set (rmatch i a s c). rmatch i b (fst p) (snd p) \<noteq> [])"
  by (auto simp: rmatch.simps)

lemma rmatch_Lit_nonempty: "rmatch i (Lit l) s c \<noteq> [] \<longleftrightarrow> lit_prefix i l s"
  by (simp add: rmatch.simps)

lemma rmatch_dotstar_lit:
  "rmatch True (Seq (Star AnyChar) (Lit m)) s c \<noteq> [] \<longleftrightarrow> same_line_ahead m s"
  unfolding rmatch_Seq_nonempty same_line_ahead_def
  by (auto simp: rmatch_Star_iff rmatch_Lit_nonempty Bex_def)

lemma rmatch_Seq_Lit:
  "rmatch i (Seq (Lit l) b) s c = (if lit_prefix i l s then rmatch i b (drop (length l) s) c else [])"
  by (simp add: rmatch.simps)

lemma rmatch_Alt_nonempty:
  "rmatch i (Alt a b) s c \<noteq> [] \<longleftrightarrow> rmatch i a s c \<noteq> [] \<or> rmatch i b s c \<noteq> []"
  by (simp add: rmatch.simps)

lemma rmatch_Group_nonempty: "rmatch i (Group n r) s c \<noteq> [] \<longleftrightarrow> rmatch i r s c \<noteq> []"
  by (simp add: rmatch.simps)

lemma rmatch_NegLookahead_nonempty:
  "rmatch i (NegLookahead r) s c \<noteq> [] \<longleftrightarrow> rmatch i r s c = []"
  by (simp add: rmatch.simps)

lemmas rmatch_nonempty =
  rmatch_Alt_nonempty rmatch_Group_nonempty rmatch_NegLookahead_nonempty rmatch_Lit_nonempty

lemma rmatch_lit_not_ahead:
  "rmatch True (Seq (Lit l) (NegLookahead (Seq (Star AnyChar) (Lit m)))) t [] \<noteq> [] \<longleftrightarrow>
     lit_prefix True l t \<and> \<not> same_line_ahead m (drop (length l) t)"
  using rmatch_dotstar_lit [of m "drop (length l) t" "[]"]
  by (auto simp: rmatch_Seq_Lit rmatch_NegLookahead_nonempty)

lemma rmatch_tablet_re:
  "rmatch True tablet_re t [] \<noteq> [] \<longleftrightarrow>
      lit_prefix True ''tablet'' t \<or> lit_prefix True ''ipad'' t \<or> lit_prefix True ''playbook'' t
      \<or> lit_prefix True ''silk'' t
      \<or> (lit_prefix True ''android'' t
          \<and> \<not> same_line_ahead ''mobi'' (drop (length ''android'') t))"
  unfolding tablet_re_def alts.simps rmatch_nonempty rmatch_lit_not_ahead by blast

lemma re_test_tablet_iff:
  "re_test True tablet_re ua \<longleftrightarrow>
     includes_ci ua ''tablet'' \<or> includes_ci ua ''ipad'' \<or> includes_ci ua ''playbook''
     \<or> includes_ci ua ''silk''
     \<or> (\<exists>t. suffix t ua \<and> lit_prefix True ''android'' t
           \<and> \<not> same_line_ahead ''mobi'' (drop (length ''android'') t))"
  unfolding re_test_iff rmatch_tablet_re includes_ci_suffix by blast

lemma rmatch_mobile_re:
  "rmatch False mobile_re t [] \<noteq> [] \<longleftrightarrow>
     prefix ''Mobile'' t \<or> prefix ''Android'' t \<or> prefix ''iPhone'' t \<or> prefix ''iPod'' t
     \<or> prefix ''IEMobile'' t \<or> prefix ''BlackBerry'' t \<or> prefix ''Kindle'' t
     \<or> prefix ''Silk-Accelerated'' t \<or> prefix ''hpwOS'' t \<or> prefix ''webOS'' t
     \<or> prefix ''Opera Mobi'' t \<or> prefix ''Opera Mini'' t"
proof -
  have a: "rmatch False (Seq (Lit a) (Group n (Alt (Lit b) (Lit c)))) t [] \<noteq> [] \<longleftrightarrow>
      prefix (a @ b) t \<or> prefix (a @ c) t" for a b c n
    by (auto simp add: rmatch_Seq_Lit rmatch_nonempty lit_prefix_append
          simp flip: lit_prefix_False)
  have b: "rmatch False (Seq (Group n (Alt (Lit a) (Lit b))) (Lit c)) t [] \<noteq> [] \<longleftrightarrow>
      prefix (a @ c) t \<or> prefix (b @ c) t" for a b c n
    by (auto simp: rmatch_Seq_nonempty rmatch.simps lit_prefix_append simp flip: lit_prefix_False)
  show ?thesis
    unfolding mobile_re_def alts.simps rmatch_Alt_nonempty a b rmatch_Lit_nonempty lit_prefix_False
    by simp
qed

lemma re_test_mobile_iff:
  "re_test False mobile_re ua \<longleftrightarrow>
     js_includes ua ''Mobile'' \<or> js_includes ua ''Android'' \<or> js_includes ua ''iPhone''
     \<or> js_includes ua ''iPod'' \<or> js_includes ua ''IEMobile'' \<or> js_includes ua ''BlackBerry''
     \<or> js_includes ua ''Kindle'' \<or> js_includes ua ''Silk-Accelerated''
     \<or> js_includes ua ''hpwOS'' \<or> js_includes ua ''webOS''
     \<or> js_includes ua ''Opera Mobi'' \<or> js_includes ua ''Opera Mini''"
  unfolding re_test_iff rmatch_mobile_re js_includes_suffix by blast

lemma lit_prefix_True_iff:
  "lit_prefix True l s \<longleftrightarrow> (\<exists>a post. s = a @ post \<and> map canon a = map canon l)"
proof (induction l arbitrary: s)
  case Nil
  show ?case by simp
next
  case (Cons x l)
  show ?case
  proof (cases s)
    case Nil
    then show ?thesis by simp
  next
    case (Cons y ys)
    show ?thesis
    proof
      assume "lit_prefix True (x # l) s"
      with Cons have xy: "canon x = canon y" and "lit_prefix True l ys"
        by (auto simp: chr_eq_def split: if_splits)
      then obtain a post where "ys = a @ post" "map canon a = map canon l"
        using Cons.IH by blast
      with xy Cons have "s = (y # a) @ post \<and> map canon (y # a) = map canon (x # l)" by simp
      then show "\<exists>a post. s = a @ post \<and> map canon a = map canon (x # l)" by blast
    next
      assume "\<exists>a post. s = a @ post \<and> map canon a = map canon (x # l)"
      then obtain a post where s: "s = a @ post" and a: "map canon a = map canon (x # l)"
        by blast
      from a obtain z zs where z: "a = z # zs" "canon z = canon x" "map canon zs = map canon l"
        by (cases a) auto
      with s Cons have "y = z" "ys = zs @ post" by auto
      with z Cons.IH [of ys] have "lit_prefix True l ys" by blast
      with \<open>y = z\<close> z Cons show "lit_prefix True (x # l) s" by (simp add: chr_eq_def)
    qed
  qed
qed

lemma same_line_ahead_includes_ci: "same_line_ahead m s \<Longrightarrow> includes_ci s m"
  by (auto simp: same_line_ahead_def includes_ci_suffix suffix_def)

lemma includes_ci_iff:
  "includes_ci s m \<longleftrightarrow> (\<exists>pre a post. s = pre @ a @ post \<and> map canon a = map canon m)"
  by (auto simp: includes_ci_suffix suffix_def lit_prefix_True_iff)

lemma lit_prefix_straddle:
  assumes "t \<noteq> []" and "canon (hd t) \<notin> canon ` set l" and "lit_prefix True l (s @ t)"
  shows "lit_prefix True l s"
  using assms
proof (induction l arbitrary: s)
  case Nil
  show ?case by simp
next
  case (Cons x l)
  show ?case
  proof (cases s)
    case Nil
    with Cons.prems show ?thesis by (cases t) (auto simp: chr_eq_def split: if_splits)
  next
    case (Cons y ys)
    with Cons.prems Cons.IH [of ys] show ?thesis by (auto split: if_splits)
  qed
qed

lemma includes_ci_append_straddle:
  assumes "t \<noteq> []" and "canon (hd t) \<notin> canon ` set m" and "includes_ci (s @ t) m"
    and "\<not> includes_ci t m"
  shows "includes_ci s m"
proof -
  from assms(3) obtain u where u: "suffix u (s @ t)" "lit_prefix True m u"
    by (auto simp: includes_ci_suffix)
  from u(1) consider "suffix u t" | s' where "suffix s' s" "u = s' @ t"
    by (auto simp: suffix_append)
  then show ?thesis
  proof cases
    case 1
    with u assms(4) show ?thesis by (auto simp: includes_ci_suffix)
  next
    case 2
    with u lit_prefix_straddle [OF assms(1,2)] have "lit_prefix True m s'" by blast
    with 2 show ?thesis by (auto simp: includes_ci_suffix)
  qed
qed

lemma tablet_android_no_mobi:
  assumes "ua = pre @ a @ post" and "map canon a = map canon ''android''"
    and "\<not> includes_ci post ''mobi''"
  shows "re_test True tablet_re ua"
proof -
  have len: "length a = length ''android''"
    using assms(2) by (metis length_map)
  have "lit_prefix True ''android'' (a @ post)"
    using assms(2) lit_prefix_True_iff by blast
  moreover have "suffix (a @ post) ua" using assms(1) by (simp add: suffix_def)
  moreover have "\<not> same_line_ahead ''mobi'' (drop (length ''android'') (a @ post))"
    using assms(3) same_line_ahead_includes_ci len by auto
  ultimately show ?thesis unfolding re_test_tablet_iff by blast
qed

lemma Mobi_straddle:
  "canon (hd ''Mobi'') \<notin> canon ` set ''tablet''"
  "canon (hd ''Mobi'') \<notin> canon ` set ''ipad''"
  "canon (hd ''Mobi'') \<notin> canon ` set ''playbook''"
  "canon (hd ''Mobi'') \<notin> canon ` set ''silk''"
  "canon (hd ''Mobi'') \<notin> canon ` set ''android''"
  "\<not> includes_ci ''Mobi'' ''tablet''"
  "\<not> includes_ci ''Mobi'' ''ipad''"
  "\<not> includes_ci ''Mobi'' ''playbook''"
  "\<not> includes_ci ''Mobi'' ''silk''"
  "\<not> includes_ci ''Mobi'' ''android''"
  by code_simp+

lemma same_line_ahead_Mobi:
  assumes "\<forall>ch \<in> set s. \<not> line_terminator ch"
  shows "same_line_ahead ''mobi'' (s @ ''Mobi'')"
proof -
  have "lit_prefix True ''mobi'' ''Mobi''" by code_simp
  with assms show ?thesis unfolding same_line_ahead_def by blast
qed

lemma tablet_fails_with_Mobi:
  assumes "\<not> includes_ci ua ''tablet''" "\<not> includes_ci ua ''ipad''"
    "\<not> includes_ci ua ''playbook''" "\<not> includes_ci ua ''silk''"
    and nl: "\<forall>ch \<in> set ua. \<not> line_terminator ch"
  shows "\<not> re_test True tablet_re (ua @ ''Mobi'')"
proof -
  have ne: "''Mobi'' \<noteq> []" by simp
  note str = includes_ci_append_straddle [OF ne]
  have 1: "\<not> includes_ci (ua @ ''Mobi'') ''tablet''"
    using str [OF Mobi_straddle(1) _ Mobi_straddle(6)] assms(1) by blast
  have 2: "\<not> includes_ci (ua @ ''Mobi'') ''ipad''"
    using str [OF Mobi_straddle(2) _ Mobi_straddle(7)] assms(2) by blast
  have 3: "\<not> includes_ci (ua @ ''Mobi'') ''playbook''"
    using str [OF Mobi_straddle(3) _ Mobi_straddle(8)] assms(3) by blast
  have 4: "\<not> includes_ci (ua @ ''Mobi'') ''silk''"
    using str [OF Mobi_straddle(4) _ Mobi_straddle(9)] assms(4) by blast
  have 5: "same_line_ahead ''mobi'' (drop (length ''android'') t)"
    if t: "suffix t (ua @ ''Mobi'')" "lit_prefix True ''android'' t" for t
  proof -
    from t(1) consider "suffix t ''Mobi''" | s' where "suffix s' ua" "t = s' @ ''Mobi''"
      by (auto simp: suffix_append)
    then show ?thesis
    proof cases
      case 1
      with t(2) have "includes_ci ''Mobi'' ''android''" by (auto simp: includes_ci_suffix)
      with Mobi_straddle(10) show ?thesis by simp
    next
      case 2
      with t(2) lit_prefix_straddle [OF ne Mobi_straddle(5)]
      have "lit_prefix True ''android'' s'" by blast
      then have "length ''android'' \<le> length s'" by (rule lit_prefix_length)
      then have d: "drop (length ''android'') t = drop (length ''android'') s' @ ''Mobi''"
        using 2 by simp
      have "set (drop (length ''android'') s') \<subseteq> set ua"
        using 2(1) by (meson set_drop_subset set_mono_suffix subset_trans)
      with nl have "\<forall>ch \<in> set (drop (length ''android'') s'). \<not> line_terminator ch" by blast
      then show ?thesis unfolding d by (rule same_line_ahead_Mobi)
    qed
  qed
  show ?thesis
    unfolding re_test_tablet_iff using 1 2 3 4 5 by blast
qed

lemma mobile_with_Android:
  assumes "js_includes ua ''Android''"
  shows "re_test False mobile_re (ua @ s)"
proof -
  have "js_includes (ua @ s) ''Android''"
    using assms unfolding js_includes_sublist by (metis sublist_append)
  then show ?thesis unfolding re_test_mobile_iff by blast
qed

lemma tablet_fails_iff:
  "\<not> re_test True tablet_re ua \<longleftrightarrow>
     \<not> includes_ci ua ''tablet'' \<and> \<not> includes_ci ua ''ipad'' \<and> \<not> includes_ci ua ''playbook''
     \<and> \<not> includes_ci ua ''silk''
     \<and> (\<forall>pre a post. ua = pre @ a @ post \<and> map canon a = map canon ''android'' \<longrightarrow>
           (\<exists>l m r. post = l @ m @ r \<and> (\<forall>ch \<in> set l. \<not> line_terminator ch)
              \<and> map canon m = map canon ''mobi''))"
proof -
  have sl: "same_line_ahead m s \<longleftrightarrow>
      (\<exists>l a r. s = l @ a @ r \<and> (\<forall>ch \<in> set l. \<not> line_terminator ch) \<and> map canon a = map canon m)"
    for m s
    unfolding same_line_ahead_def lit_prefix_True_iff by blast
  have "(\<exists>t. suffix t ua \<and> lit_prefix True ''android'' t
           \<and> \<not> same_line_ahead ''mobi'' (drop (length ''android'') t))
     \<longleftrightarrow> (\<exists>pre a post. ua = pre @ a @ post \<and> map canon a = map canon ''android''
           \<and> \<not> same_line_ahead ''mobi'' post)" (is "?L \<longleftrightarrow> ?R")
  proof
    assume ?L
    then obtain t where t: "suffix t ua" "lit_prefix True ''android'' t"
      "\<not> same_line_ahead ''mobi'' (drop (length ''android'') t)" by blast
    from t(2) obtain a post where a: "t = a @ post" "map canon a = map canon ''android''"
      unfolding lit_prefix_True_iff by blast
    from a(2) have "length a = length ''android''" by (metis length_map)
    with a t(3) have "\<not> same_line_ahead ''mobi'' post" by simp
    moreover from t(1) a(1) obtain pre where "ua = pre @ a @ post" by (auto simp: suffix_def)
    ultimately show ?R using a(2) by blast
  next
    assume ?R
    then obtain pre a post where a: "ua = pre @ a @ post" "map canon a = map canon ''android''"
      "\<not> same_line_ahead ''mobi'' post" by blast
    from a(2) have "length a = length ''android''" by (metis length_map)
    with a(3) have "\<not> same_line_ahead ''mobi'' (drop (length ''android'') (a @ post))" by simp
    moreover have "suffix (a @ post) ua" using a(1) by (simp add: suffix_def)
    moreover have "lit_prefix True ''android'' (a @ post)"
      unfolding lit_prefix_True_iff using a(2) by blast
    ultimately show ?L by blast
  qed
  then show ?thesis unfolding re_test_tablet_iff sl by blast
qed

lemma includes_ci_android_decomp:
  "\<not> includes_ci ua ''android'' \<Longrightarrow> ua = pre @ a @ post \<Longrightarrow> map canon a \<noteq> map canon ''android''"
  unfolding includes_ci_iff by blast

lemma re_exec_Some:
  "re_exec i r s = Some c \<Longrightarrow> \<exists>t p. suffix t s \<and> p \<in> set (rmatch i r t []) \<and> c = snd p"
proof (induction s)
  case Nil
  then show ?case by (auto split: list.splits)
next
  case (Cons x xs)
  show ?case
  proof (cases "rmatch i r (x # xs) []")
    case Nil
    with Cons obtain t p where "suffix t xs" "p \<in> set (rmatch i r t [])" "c = snd p" by auto
    then have "suffix t (x # xs) \<and> p \<in> set (rmatch i r t []) \<and> c = snd p"
      by (simp add: suffix_ConsI)
    then show ?thesis by blast
  next
    case (Cons p ps)
    with Cons.prems have "c = snd p" by simp
    with Cons have "suffix (x # xs) (x # xs) \<and> p \<in> set (rmatch i r (x # xs) []) \<and> c = snd p"
      by simp
    then show ?thesis by blast
  qed
qed

lemma mac_version_re_group:
  "p \<in> set (rmatch False mac_version_re t []) \<Longrightarrow> map_of (snd p) 1 \<noteq> None"
  by (auto simp: mac_version_re_def rmatch_Seq_Lit rmatch.simps(8) split: if_splits)

lemma mac_version_total: "\<exists>v. mac_version ua = Inr v"
proof (cases "re_exec False mac_version_re ua")
  case None
  then show ?thesis by (simp add: mac_version_def)
next
  case (Some c)
  then have "map_of c 1 \<noteq> None" using re_exec_Some mac_version_re_group by blast
  with Some show ?thesis by (auto simp: mac_version_def)
qed

lemma js_includes_trans: "js_includes s m \<Longrightarrow> js_includes m k \<Longrightarrow> js_includes s k"
  unfolding js_includes_sublist by (meson sublist_order.order_trans)

lemma not_Windows_NT: "\<not> js_includes ua ''Windows'' \<Longrightarrow> \<not> js_includes ua ''Windows NT 10''"
proof -
  have "js_includes ''Windows NT 10'' ''Windows''" by code_simp
  then show "\<not> js_includes ua ''Windows'' \<Longrightarrow> \<not> js_includes ua ''Windows NT 10''"
    using js_includes_trans by blast
qed

lemma rmatch_Star_stop:
  assumes "\<forall>ch rest. s = ch # rest \<longrightarrow> \<not> in_class i k ch"
  shows "rmatch i (Star k) s c = [(s, c)]"
  using assms by (cases s) (simp_all add: rmatch.simps)

lemma rmatch_Cls_Cons:
  "rmatch i (Cls k) (x # xs) c = (if in_class i k x then [(xs, c)] else [])"
  by (simp add: rmatch.simps)

lemma rmatch_Star_Cons:
  "rmatch i (Star k) (x # xs) c =
     (if in_class i k x then rmatch i (Star k) xs c @ [(x # xs, c)] else [(x # xs, c)])"
  by (simp add: rmatch.simps)

lemma rmatch_mac_version_here:
  assumes "\<forall>ch rest. post = ch # rest \<longrightarrow> \<not> is_digit ch"
  shows "\<exists>ps. rmatch False mac_version_re (''Mac OS X 10_15'' @ post) [] = (post, [(1, ''10_15'')]) # ps"
proof -
  have s: "rmatch False (Star Digit) post c = [(post, c)]" for c
    by (rule rmatch_Star_stop) (use assms in simp)
  have dg: "is_digit CHR ''1''" "is_digit CHR ''0''" "is_digit CHR ''5''" "\<not> is_digit CHR ''_''"
    by code_simp+
  have g: "rmatch False (Seq (Plus Digit) (Seq (Cls (OneOf ''._'')) (Plus Digit))) (''10_15'' @ post) []
      = [(post, []), (CHR ''5'' # post, [])]"
    unfolding Plus_def
    by (simp add: rmatch.simps(4) rmatch_Cls_Cons rmatch_Star_Cons dg s)
  have l: "lit_prefix False ''Mac OS X '' (''Mac OS X 10_15'' @ post)"
    by (simp add: chr_eq_def)
  have d: "drop (length ''Mac OS X '') (''Mac OS X 10_15'' @ post) = ''10_15'' @ post" by simp
  show ?thesis
    unfolding mac_version_re_def rmatch_Seq_Lit d
    by (simp only: l if_True rmatch.simps(8) g) simp
qed

lemma re_exec_mac_version:
  assumes "\<not> js_includes (pre @ ''Mac OS X'') ''Mac OS X ''"
    and "\<forall>ch rest. post = ch # rest \<longrightarrow> \<not> is_digit ch"
  shows "re_exec False mac_version_re (pre @ ''Mac OS X 10_15'' @ post) = Some [(1, ''10_15'')]"
proof -
  let ?S = "''Mac OS X 10_15'' @ post"
  have skip: "rmatch False mac_version_re t [] = []"
    if t: "suffix t (pre @ ?S)" "length ?S < length t" for t
  proof -
    from t obtain p' where p': "suffix p' pre" "t = p' @ ?S" "p' \<noteq> []"
      by (auto simp: suffix_append dest: suffix_length_le)
    have "\<not> prefix ''Mac OS X '' t"
    proof
      assume "prefix ''Mac OS X '' t"
      then have "prefix ''Mac OS X '' ((p' @ ''Mac OS X'') @ '' 10_15'' @ post)"
        using p'(2) by simp
      moreover have "length ''Mac OS X '' \<le> length (p' @ ''Mac OS X'')"
        using p'(3) by (cases p') auto
      ultimately have "prefix ''Mac OS X '' (p' @ ''Mac OS X'')"
        by (metis prefix_length_prefix prefixI)
      moreover have "suffix (p' @ ''Mac OS X'') (pre @ ''Mac OS X'')"
        using p'(1) by simp
      ultimately show False using assms(1) unfolding js_includes_suffix by blast
    qed
    then show ?thesis
      by (simp add: mac_version_re_def rmatch_Seq_Lit lit_prefix_False del: lit_prefix.simps)
  qed
  have "re_exec False mac_version_re (pre @ ?S) = re_exec False mac_version_re ?S"
    by (rule re_exec_skip) (use skip in blast)
  also have "\<dots> = Some [(1, ''10_15'')]"
    using rmatch_mac_version_here [OF assms(2)] by auto
  finally show ?thesis .
qed

lemma getGeolocation_shape:
  "fst (getGeolocation net) = Fulfilled []
   \<or> (\<exists>a b c. fst (getGeolocation net) =
         Fulfilled [(''country'', a), (''city'', b), (''countryCode'', c)])"
  by (auto simp: getGeolocation_def geo_try_def split: promise.splits sum.splits)

lemma getOS_total: "\<exists>label. getOS ua = Inr label"
  using mac_version_total [of ua] by (auto simp: getOS_def)

lemma collectTechnicalMetadata_location:
  "collectTechnicalMetadata env = Inr t \<Longrightarrow>
     location t = [(''timezone'', JStr (intl_timeZone env)), (''language'', JStr (nav_language env))]"
  by (auto simp: collectTechnicalMetadata_def Let_def split: sum.splits)

lemma collectTechnicalMetadata_total: "\<exists>t. collectTechnicalMetadata env = Inr t"
  using getOS_total [of "nav_userAgent env"]
  by (auto simp: collectTechnicalMetadata_def Let_def)

lemma obj_spread_location:
  assumes "a = [(''timezone'', tz), (''language'', lang)]"
    and "g = [] \<or> (\<exists>x y z. g = [(''country'', x), (''city'', y), (''countryCode'', z)])"
  shows "obj_spread [a, g] = a @ g"
  using assms by (auto simp: obj_spread_def)

lemma sample_capture: "collectTechnicalMetadata sample_env = Inr sample_metadata"
  by code_simp

lemma getGeolocation_empty_iff:
  "fst (getGeolocation net) = Fulfilled [] \<longleftrightarrow>
     \<not> (\<exists>resp data. net = Fulfilled resp \<and> json_body resp = Fulfilled data
           \<and> data \<noteq> JNull \<and> data \<noteq> JUndefined)"
  by (auto simp: getGeolocation_def geo_try_def get_prop_def nullish_def
        split: promise.splits sum.splits)

lemma getGeolocation_parsed:
  assumes "json_body resp = Fulfilled data" and "data \<noteq> JNull" and "data \<noteq> JUndefined"
  shows "fst (getGeolocation (Fulfilled resp)) =
      Fulfilled [(''country'', prop_of data ''country_name''), (''city'', prop_of data ''city''),
                 (''countryCode'', prop_of data ''country_code'')]"
  using assms by (simp add: getGeolocation_def geo_try_def get_prop_def nullish_def)

section \<open>Browser classification\<close>

text \<open>
  Claim C1, as stated: every user-agent string that contains both \<open>Chrome\<close> and \<open>Safari\<close>
  is classified as Chrome. The user-agent string of Edge contains both, and \<open>Edg\<close> as
  well, which is tested before \<open>Chrome\<close>: it is classified as Edge.
\<close>

theorem getBrowser_chrome_safari_counterexample:
  "js_includes ''Mozilla/5.0 (Windows NT 10.0; Win64; x64) AppleWebKit/537.36 (KHTML, like Gecko) Chrome/120.0.0.0 Safari/537.36 Edg/120.0.0.0'' ''Chrome''
   \<and> js_includes ''Mozilla/5.0 (Windows NT 10.0; Win64; x64) AppleWebKit/537.36 (KHTML, like Gecko) Chrome/120.0.0.0 Safari/537.36 Edg/120.0.0.0'' ''Safari''
   \<and> name (getBrowser ''Mozilla/5.0 (Windows NT 10.0; Win64; x64) AppleWebKit/537.36 (KHTML, like Gecko) Chrome/120.0.0.0 Safari/537.36 Edg/120.0.0.0'') = ''Edge''"
  by code_simp

text \<open>
  Claim C1, amended: for every user-agent string that contains both \<open>Chrome\<close> and
  \<open>Safari\<close>, the browser name is never \<open>Safari\<close>; it is \<open>Firefox\<close> when the string contains
  \<open>Firefox\<close>, otherwise \<open>Edge\<close> when it contains \<open>Edg\<close>, and \<open>Chrome\<close> otherwise, the markers
  being tested in the order Firefox, Edg, Chrome, Safari and the first match winning.
\<close>

theorem getBrowser_chrome_before_safari:
  assumes "js_includes ua ''Chrome''" and "js_includes ua ''Safari''"
  shows "name (getBrowser ua) \<noteq> ''Safari''
    \<and> name (getBrowser ua) =
        (if js_includes ua ''Firefox'' then ''Firefox''
         else if js_includes ua ''Edg'' then ''Edge'' else ''Chrome'')"
  using assms by (simp add: getBrowser_def)

theorem getBrowser_chrome_before_safari_witness:
  "js_includes ''Mozilla/5.0 (X11; Linux x86_64) AppleWebKit/537.36 (KHTML, like Gecko) Chrome/120.0.0.0 Safari/537.36'' ''Chrome''
   \<and> js_includes ''Mozilla/5.0 (X11; Linux x86_64) AppleWebKit/537.36 (KHTML, like Gecko) Chrome/120.0.0.0 Safari/537.36'' ''Safari''
   \<and> name (getBrowser ''Mozilla/5.0 (X11; Linux x86_64) AppleWebKit/537.36 (KHTML, like Gecko) Chrome/120.0.0.0 Safari/537.36'') = ''Chrome''"
proof -
  let ?ua = "''Mozilla/5.0 (X11; Linux x86_64) AppleWebKit/537.36 (KHTML, like Gecko) Chrome/120.0.0.0 Safari/537.36''"
  have c: "js_includes ?ua ''Chrome''" by code_simp
  have s: "js_includes ?ua ''Safari''" by code_simp
  have f: "\<not> js_includes ?ua ''Firefox''" by code_simp
  have e: "\<not> js_includes ?ua ''Edg''" by code_simp
  from getBrowser_chrome_before_safari [OF c s] f e
  have "name (getBrowser ?ua) = ''Chrome''" by simp
  with c s show ?thesis by simp
qed

section \<open>Device classification\<close>

text \<open>
  Claim C2, as stated: a user-agent string that contains \<open>Android\<close> in any letter case
  with no later \<open>Mobi\<close> is a tablet, and the same string with \<open>Mobi\<close> appended is mobile.
  The second half fails. The user-agent string of Firefox on an Android tablet contains
  the marker \<open>Tablet\<close>, which the tablet pattern accepts whatever follows: with \<open>Mobi\<close>
  appended it is still a tablet. And the mobile pattern is case sensitive: a string that
  spells \<open>ANDROID\<close> is, with \<open>Mobi\<close> appended, neither tablet nor mobile.
\<close>

theorem getDeviceType_android_counterexample:
  "includes_ci ''Mozilla/5.0 (Android 13; Tablet; rv:109.0) Gecko/114.0 Firefox/114.0'' ''android''
   \<and> \<not> includes_ci ''Mozilla/5.0 (Android 13; Tablet; rv:109.0) Gecko/114.0 Firefox/114.0'' ''mobi''
   \<and> getDeviceType (''Mozilla/5.0 (Android 13; Tablet; rv:109.0) Gecko/114.0 Firefox/114.0'' @ ''Mobi'') = Tablet
   \<and> includes_ci ''Linux; ANDROID 13'' ''android''
   \<and> \<not> includes_ci ''Linux; ANDROID 13'' ''mobi''
   \<and> getDeviceType (''Linux; ANDROID 13'' @ ''Mobi'') = Desktop"
  by code_simp

text \<open>
  Claim C2, amended: a user-agent string with an occurrence of \<open>android\<close>, in any letter
  case, after which \<open>mobi\<close> does not occur in any letter case, is a tablet. The same
  string with \<open>Mobi\<close> appended is mobile when it contains \<open>Android\<close> in exactly this
  spelling, none of \<open>tablet\<close>, \<open>ipad\<close>, \<open>playbook\<close>, \<open>silk\<close> in any letter case, and
  no line terminator. The tablet pattern is tested first, the first match wins, and
  the default is desktop.
\<close>

theorem getDeviceType_android_tablet:
  assumes "ua = pre @ a @ post" and "map canon a = map canon ''android''"
    and "\<not> includes_ci post ''mobi''"
  shows "getDeviceType ua = Tablet
    \<and> (js_includes ua ''Android''
        \<and> \<not> includes_ci ua ''tablet'' \<and> \<not> includes_ci ua ''ipad''
        \<and> \<not> includes_ci ua ''playbook'' \<and> \<not> includes_ci ua ''silk''
        \<and> (\<forall>ch \<in> set ua. \<not> line_terminator ch)
       \<longrightarrow> getDeviceType (ua @ ''Mobi'') = Mobile)
    \<and> (re_test True tablet_re s \<longrightarrow> getDeviceType s = Tablet)
    \<and> (\<not> re_test True tablet_re s \<and> re_test False mobile_re s \<longrightarrow> getDeviceType s = Mobile)
    \<and> (\<not> re_test True tablet_re s \<and> \<not> re_test False mobile_re s
         \<longrightarrow> getDeviceType s = Desktop)"
  using tablet_android_no_mobi [OF assms] tablet_fails_with_Mobi [of ua]
    mobile_with_Android [of ua "''Mobi''"]
  by (simp add: getDeviceType_def)

text \<open>Claim C2, the amended statement at the user-agent string of an Android tablet.\<close>

theorem getDeviceType_android_tablet_witness:
  "getDeviceType ''Mozilla/5.0 (Linux; Android 13; SM-X200)'' = Tablet
   \<and> getDeviceType (''Mozilla/5.0 (Linux; Android 13; SM-X200)'' @ ''Mobi'') = Mobile"
proof -
  let ?ua = "''Mozilla/5.0 (Linux; Android 13; SM-X200)''"
  have 1: "?ua = ''Mozilla/5.0 (Linux; '' @ ''Android'' @ '' 13; SM-X200)''" by simp
  have 2: "map canon ''Android'' = map canon ''android''" by code_simp
  have 3: "\<not> includes_ci '' 13; SM-X200)'' ''mobi''" by code_simp
  have 4: "js_includes ?ua ''Android''" by code_simp
  have 5: "\<not> includes_ci ?ua ''tablet''" "\<not> includes_ci ?ua ''ipad''"
    "\<not> includes_ci ?ua ''playbook''" "\<not> includes_ci ?ua ''silk''" by code_simp+
  have 6: "\<forall>ch \<in> set ?ua. \<not> line_terminator ch" by code_simp
  from getDeviceType_android_tablet [OF 1 2 3] 4 5 6 show ?thesis by blast
qed

text \<open>
  Claim C10, as stated: a user-agent string that contains lower-case \<open>android\<close> followed
  by lower-case \<open>mobi\<close>, and none of the other markers, fails both patterns and is a
  desktop. When \<open>android\<close> occurs once more after the last \<open>mobi\<close>, the lookahead
  succeeds at that occurrence and the string is a tablet.
\<close>

theorem getDeviceType_lowercase_counterexample:
  "''android 9; mobi; android'' = ''android'' @ '' 9; '' @ ''mobi'' @ ''; android''
   \<and> \<not> includes_ci ''android 9; mobi; android'' ''tablet''
   \<and> \<not> includes_ci ''android 9; mobi; android'' ''ipad''
   \<and> \<not> includes_ci ''android 9; mobi; android'' ''playbook''
   \<and> \<not> includes_ci ''android 9; mobi; android'' ''silk''
   \<and> \<not> re_test False mobile_re ''android 9; mobi; android''
   \<and> re_test True tablet_re ''android 9; mobi; android''
   \<and> getDeviceType ''android 9; mobi; android'' = Tablet"
  by code_simp

text \<open>
  Claim C10, amended: the tablet pattern ignores the letter case and the mobile pattern
  does not. A user-agent string in which every occurrence of \<open>android\<close>, in any letter
  case, is followed on the same line by \<open>mobi\<close>, in any letter case, and which contains
  none of \<open>tablet\<close>, \<open>ipad\<close>, \<open>playbook\<close>, \<open>silk\<close> in any letter case and none of the
  markers of the mobile pattern in their exact spelling, fails the tablet pattern,
  fails the mobile pattern and is classified as desktop.
\<close>

theorem getDeviceType_lowercase_android_mobi:
  assumes "\<not> includes_ci ua ''tablet''" and "\<not> includes_ci ua ''ipad''"
    and "\<not> includes_ci ua ''playbook''" and "\<not> includes_ci ua ''silk''"
    and "\<forall>pre a post. ua = pre @ a @ post \<and> map canon a = map canon ''android'' \<longrightarrow>
           (\<exists>l m r. post = l @ m @ r \<and> (\<forall>ch \<in> set l. \<not> line_terminator ch)
              \<and> map canon m = map canon ''mobi'')"
    and "\<not> js_includes ua ''Mobile''" and "\<not> js_includes ua ''Android''"
    and "\<not> js_includes ua ''iPhone''" and "\<not> js_includes ua ''iPod''"
    and "\<not> js_includes ua ''IEMobile''" and "\<not> js_includes ua ''BlackBerry''"
    and "\<not> js_includes ua ''Kindle''" and "\<not> js_includes ua ''Silk-Accelerated''"
    and "\<not> js_includes ua ''hpwOS''" and "\<not> js_includes ua ''webOS''"
    and "\<not> js_includes ua ''Opera Mobi''" and "\<not> js_includes ua ''Opera Mini''"
  shows "\<not> re_test True tablet_re ua \<and> \<not> re_test False mobile_re ua
    \<and> getDeviceType ua = Desktop"
proof -
  have t: "\<not> re_test True tablet_re ua"
    unfolding tablet_fails_iff using assms(1-5) by blast
  have m: "\<not> re_test False mobile_re ua"
    unfolding re_test_mobile_iff using assms(6-17) by blast
  from t m show ?thesis by (simp add: getDeviceType_def)
qed

text \<open>Claim C10, the amended statement at the string \<open>android 9; mobi\<close>.\<close>

theorem getDeviceType_lowercase_android_mobi_witness:
  "''android 9; mobi'' = ''android'' @ '' 9; '' @ ''mobi''
   \<and> \<not> re_test True tablet_re ''android 9; mobi''
   \<and> \<not> re_test False mobile_re ''android 9; mobi''
   \<and> getDeviceType ''android 9; mobi'' = Desktop"
proof -
  let ?ua = "''android 9; mobi''"
  have t: "\<not> re_test True tablet_re ?ua" by code_simp
  note h = t [unfolded tablet_fails_iff]
  have m: "\<not> js_includes ?ua ''Mobile''" "\<not> js_includes ?ua ''Android''"
    "\<not> js_includes ?ua ''iPhone''" "\<not> js_includes ?ua ''iPod''"
    "\<not> js_includes ?ua ''IEMobile''" "\<not> js_includes ?ua ''BlackBerry''"
    "\<not> js_includes ?ua ''Kindle''" "\<not> js_includes ?ua ''Silk-Accelerated''"
    "\<not> js_includes ?ua ''hpwOS''" "\<not> js_includes ?ua ''webOS''"
    "\<not> js_includes ?ua ''Opera Mobi''" "\<not> js_includes ?ua ''Opera Mini''"
    by code_simp+
  have "\<not> re_test True tablet_re ?ua \<and> \<not> re_test False mobile_re ?ua
    \<and> getDeviceType ?ua = Desktop"
    by (rule getDeviceType_lowercase_android_mobi) (use h m in blast)+
  then show ?thesis by simp
qed

section \<open>Defaults\<close>

text \<open>
  Claim C6: for the empty user-agent string the browser is \<open>Unknown\<close> with version
  \<open>unknown\<close>, the operating system is \<open>Unknown\<close> and the device is a desktop; the same
  holds for every string that contains none of the markers of the respective
  classifier. The classifiers are functions of the string that write nothing; the
  only place where one of them could raise, in \<open>getOS\<close>, yields a value (\<open>Inr\<close>) here.
\<close>

theorem unrecognized_defaults:
  "getBrowser [] = \<lparr>name = ''Unknown'', version = ''unknown''\<rparr>
   \<and> getOS [] = Inr ''Unknown''
   \<and> getDeviceType [] = Desktop
   \<and> (\<not> js_includes ua ''Firefox'' \<and> \<not> js_includes ua ''Edg'' \<and> \<not> js_includes ua ''Chrome''
      \<and> \<not> js_includes ua ''Safari''
      \<longrightarrow> getBrowser ua = \<lparr>name = ''Unknown'', version = ''unknown''\<rparr>)
   \<and> (\<not> js_includes ua ''Windows NT 10'' \<and> \<not> js_includes ua ''Windows''
      \<and> \<not> js_includes ua ''Mac OS X'' \<and> \<not> js_includes ua ''Linux''
      \<and> \<not> js_includes ua ''Android'' \<and> \<not> js_includes ua ''iOS''
      \<and> \<not> js_includes ua ''iPhone'' \<and> \<not> js_includes ua ''iPad''
      \<longrightarrow> getOS ua = Inr ''Unknown'')
   \<and> (\<not> includes_ci ua ''tablet'' \<and> \<not> includes_ci ua ''ipad'' \<and> \<not> includes_ci ua ''playbook''
      \<and> \<not> includes_ci ua ''silk'' \<and> \<not> includes_ci ua ''android''
      \<and> \<not> js_includes ua ''Mobile'' \<and> \<not> js_includes ua ''Android''
      \<and> \<not> js_includes ua ''iPhone'' \<and> \<not> js_includes ua ''iPod''
      \<and> \<not> js_includes ua ''IEMobile'' \<and> \<not> js_includes ua ''BlackBerry''
      \<and> \<not> js_includes ua ''Kindle'' \<and> \<not> js_includes ua ''Silk-Accelerated''
      \<and> \<not> js_includes ua ''hpwOS'' \<and> \<not> js_includes ua ''webOS''
      \<and> \<not> js_includes ua ''Opera Mobi'' \<and> \<not> js_includes ua ''Opera Mini''
      \<longrightarrow> getDeviceType ua = Desktop)"
proof -
  have 1: "getBrowser [] = \<lparr>name = ''Unknown'', version = ''unknown''\<rparr>" by code_simp
  have 2: "getOS [] = Inr ''Unknown''" by code_simp
  have 3: "getDeviceType [] = Desktop" by code_simp
  have 4: "\<not> re_test True tablet_re ua" if "\<not> includes_ci ua ''tablet''"
    "\<not> includes_ci ua ''ipad''" "\<not> includes_ci ua ''playbook''" "\<not> includes_ci ua ''silk''"
    "\<not> includes_ci ua ''android''"
    unfolding tablet_fails_iff using that includes_ci_android_decomp [of ua] by blast
  show ?thesis
    using 1 2 3 4 by (simp add: getBrowser_def getOS_def getDeviceType_def re_test_mobile_iff)
qed

text \<open>Claim C6, at the user-agent string \<open>curl/8.4.0\<close>.\<close>

theorem unrecognized_defaults_witness:
  "getBrowser ''curl/8.4.0'' = \<lparr>name = ''Unknown'', version = ''unknown''\<rparr>
   \<and> getOS ''curl/8.4.0'' = Inr ''Unknown''
   \<and> getDeviceType ''curl/8.4.0'' = Desktop"
proof -
  let ?ua = "''curl/8.4.0''"
  have b: "\<not> js_includes ?ua ''Firefox'' \<and> \<not> js_includes ?ua ''Edg'' \<and> \<not> js_includes ?ua ''Chrome''
      \<and> \<not> js_includes ?ua ''Safari''" by code_simp
  have o: "\<not> js_includes ?ua ''Windows NT 10'' \<and> \<not> js_includes ?ua ''Windows''
      \<and> \<not> js_includes ?ua ''Mac OS X'' \<and> \<not> js_includes ?ua ''Linux''
      \<and> \<not> js_includes ?ua ''Android'' \<and> \<not> js_includes ?ua ''iOS''
      \<and> \<not> js_includes ?ua ''iPhone'' \<and> \<not> js_includes ?ua ''iPad''" by code_simp
  have d: "\<not> includes_ci ?ua ''tablet'' \<and> \<not> includes_ci ?ua ''ipad'' \<and> \<not> includes_ci ?ua ''playbook''
      \<and> \<not> includes_ci ?ua ''silk'' \<and> \<not> includes_ci ?ua ''android''
      \<and> \<not> js_includes ?ua ''Mobile'' \<and> \<not> js_includes ?ua ''Android''
      \<and> \<not> js_includes ?ua ''iPhone'' \<and> \<not> js_includes ?ua ''iPod''
      \<and> \<not> js_includes ?ua ''IEMobile'' \<and> \<not> js_includes ?ua ''BlackBerry''
      \<and> \<not> js_includes ?ua ''Kindle'' \<and> \<not> js_includes ?ua ''Silk-Accelerated''
      \<and> \<not> js_includes ?ua ''hpwOS'' \<and> \<not> js_includes ?ua ''webOS''
      \<and> \<not> js_includes ?ua ''Opera Mobi'' \<and> \<not> js_includes ?ua ''Opera Mini''" by code_simp
  from unrecognized_defaults [of ?ua] b o d show ?thesis by blast
qed

section \<open>Operating system\<close>

text \<open>
  Claim C7, as stated: a user-agent string that contains \<open>Mac OS X 10_15\<close> is labelled
  \<open>macOS 10.15\<close>. It is not when a further digit follows, when the string also contains
  \<open>Windows\<close>, or when an earlier \<open>Mac OS X\<close> carries another version.
\<close>

theorem getOS_mac_10_15_counterexample:
  "js_includes ''Mac OS X 10_150'' ''Mac OS X 10_15''
   \<and> getOS ''Mac OS X 10_150'' = Inr ''macOS 10.150''
   \<and> js_includes ''Mozilla/5.0 (Windows NT 10.0; like Mac OS X 10_15)'' ''Mac OS X 10_15''
   \<and> getOS ''Mozilla/5.0 (Windows NT 10.0; like Mac OS X 10_15)'' = Inr ''Windows 10/11''
   \<and> js_includes ''Mac OS X 11_0 Mac OS X 10_15'' ''Mac OS X 10_15''
   \<and> getOS ''Mac OS X 11_0 Mac OS X 10_15'' = Inr ''macOS 11.0''"
  by code_simp

text \<open>
  Claim C7, amended: a user-agent string that does not contain \<open>Windows\<close>, whose first
  occurrence of \<open>Mac OS X\<close> followed by a space is the start of \<open>Mac OS X 10_15\<close>, with
  no digit right after it, is labelled \<open>macOS 10.15\<close>: the version \<open>10_15\<close> is
  extracted and its underscore replaced by a period.
\<close>

theorem getOS_mac_10_15:
  assumes "ua = pre @ ''Mac OS X 10_15'' @ post"
    and "\<not> js_includes ua ''Windows''"
    and "\<not> js_includes (pre @ ''Mac OS X'') ''Mac OS X ''"
    and "\<forall>ch rest. post = ch # rest \<longrightarrow> \<not> is_digit ch"
  shows "getOS ua = Inr ''macOS 10.15''"
proof -
  have "ua = pre @ ''Mac OS X'' @ ('' 10_15'' @ post)"
    using assms(1) by simp
  then have m: "js_includes ua ''Mac OS X''"
    unfolding js_includes_sublist by (simp only: sublist_appendI)
  have r: "str_replace ''_'' ''.'' ''10_15'' = ''10.15''" by code_simp
  have "mac_version ua = Inr ''10.15''"
    unfolding mac_version_def assms(1) re_exec_mac_version [OF assms(3,4)]
    by (simp add: r or_else_def)
  with m assms(2) not_Windows_NT [of ua] show ?thesis by (simp add: getOS_def)
qed

text \<open>
  Claim C7, the amended statement at the string \<open>Mac OS X 10_15\<close> and at the user-agent
  string of Safari on macOS 10.15.7.
\<close>

theorem getOS_mac_10_15_witness:
  "getOS ''Mac OS X 10_15'' = Inr ''macOS 10.15''
   \<and> getOS (''Mozilla/5.0 (Macintosh; Intel '' @ ''Mac OS X 10_15''
        @ ''_7) AppleWebKit/605.1.15 (KHTML, like Gecko) Version/17.0 Safari/605.1.15'')
      = Inr ''macOS 10.15''"
proof -
  let ?pre = "''Mozilla/5.0 (Macintosh; Intel ''"
  let ?post = "''_7) AppleWebKit/605.1.15 (KHTML, like Gecko) Version/17.0 Safari/605.1.15''"
  have a1: "\<not> js_includes ([] @ ''Mac OS X 10_15'' @ []) ''Windows''" by code_simp
  have a2: "\<not> js_includes ([] @ ''Mac OS X'') ''Mac OS X ''" by code_simp
  have b1: "\<not> js_includes (?pre @ ''Mac OS X 10_15'' @ ?post) ''Windows''" by code_simp
  have b2: "\<not> js_includes (?pre @ ''Mac OS X'') ''Mac OS X ''" by code_simp
  have b3: "\<forall>ch rest. ?post = ch # rest \<longrightarrow> \<not> is_digit ch" by (simp add: is_digit_def)
  from getOS_mac_10_15 [OF refl a1 a2] getOS_mac_10_15 [OF refl b1 b2 b3]
  show ?thesis by simp
qed

text \<open>
  Claim C8, as stated: the markers are tested in the order \<open>Windows NT 10\<close>, \<open>Windows\<close>,
  \<open>Mac OS X\<close>, \<open>Linux\<close>, \<open>Android\<close>, then \<open>iOS\<close>, \<open>iPhone\<close>, \<open>iPad\<close>; hence every string
  with \<open>Linux\<close> and \<open>Android\<close> is labelled \<open>Linux\<close> and every string with \<open>Mac OS X\<close>
  and \<open>iPhone\<close> or \<open>iPad\<close> gets the macOS label. The two consequences forget the markers
  tested earlier: the user-agent string of Internet Explorer on Windows Phone 8.1
  contains \<open>Mac OS X\<close> and \<open>iPhone\<close> and is labelled \<open>Windows\<close>, and a string with
  \<open>Linux\<close>, \<open>Android\<close> and \<open>Mac OS X\<close> gets the macOS label.
\<close>

theorem getOS_first_match_counterexample:
  "js_includes ''Mozilla/5.0 (Mobile; Windows Phone 8.1; Android 4.0; ARM; Trident/7.0; Touch; rv:11.0; IEMobile/11.0; NOKIA; Lumia 930) like iPhone OS 7_0_3 Mac OS X AppleWebKit/537 (KHTML, like Gecko) Mobile Safari/537'' ''Mac OS X''
   \<and> js_includes ''Mozilla/5.0 (Mobile; Windows Phone 8.1; Android 4.0; ARM; Trident/7.0; Touch; rv:11.0; IEMobile/11.0; NOKIA; Lumia 930) like iPhone OS 7_0_3 Mac OS X AppleWebKit/537 (KHTML, like Gecko) Mobile Safari/537'' ''iPhone''
   \<and> getOS ''Mozilla/5.0 (Mobile; Windows Phone 8.1; Android 4.0; ARM; Trident/7.0; Touch; rv:11.0; IEMobile/11.0; NOKIA; Lumia 930) like iPhone OS 7_0_3 Mac OS X AppleWebKit/537 (KHTML, like Gecko) Mobile Safari/537'' = Inr ''Windows''
   \<and> js_includes ''Mozilla/5.0 (Linux; Android 12; like Mac OS X)'' ''Linux''
   \<and> js_includes ''Mozilla/5.0 (Linux; Android 12; like Mac OS X)'' ''Android''
   \<and> getOS ''Mozilla/5.0 (Linux; Android 12; like Mac OS X)'' = Inr ''macOS ''"
  by code_simp

text \<open>
  Claim C8, amended: the markers are tested in the order above, the first match wins
  and the default is \<open>Unknown\<close>. Hence a string with \<open>Linux\<close> (with or without
  \<open>Android\<close>) that contains neither \<open>Windows\<close> nor \<open>Mac OS X\<close> is labelled \<open>Linux\<close>; a
  string with \<open>Mac OS X\<close> that does not contain \<open>Windows\<close> gets a macOS label; and a
  string with \<open>Mac OS X\<close> is never labelled \<open>iOS\<close>.
\<close>

theorem getOS_first_match:
  "(js_includes ua ''Windows NT 10'' \<longrightarrow> getOS ua = Inr ''Windows 10/11'')
   \<and> (\<not> js_includes ua ''Windows NT 10'' \<and> js_includes ua ''Windows''
        \<longrightarrow> getOS ua = Inr ''Windows'')
   \<and> (\<not> js_includes ua ''Windows'' \<and> js_includes ua ''Mac OS X''
        \<longrightarrow> (\<exists>v. getOS ua = Inr (''macOS '' @ v)))
   \<and> (js_includes ua ''Mac OS X'' \<longrightarrow> getOS ua \<noteq> Inr ''iOS'')
   \<and> (\<not> js_includes ua ''Windows'' \<and> \<not> js_includes ua ''Mac OS X'' \<and> js_includes ua ''Linux''
        \<longrightarrow> getOS ua = Inr ''Linux'')
   \<and> (\<not> js_includes ua ''Windows'' \<and> \<not> js_includes ua ''Mac OS X''
        \<and> \<not> js_includes ua ''Linux'' \<and> js_includes ua ''Android''
        \<longrightarrow> getOS ua = Inr ''Android'')
   \<and> (\<not> js_includes ua ''Windows'' \<and> \<not> js_includes ua ''Mac OS X''
        \<and> \<not> js_includes ua ''Linux'' \<and> \<not> js_includes ua ''Android''
        \<and> (js_includes ua ''iOS'' \<or> js_includes ua ''iPhone'' \<or> js_includes ua ''iPad'')
        \<longrightarrow> getOS ua = Inr ''iOS'')
   \<and> (\<not> js_includes ua ''Windows'' \<and> \<not> js_includes ua ''Mac OS X''
        \<and> \<not> js_includes ua ''Linux'' \<and> \<not> js_includes ua ''Android''
        \<and> \<not> js_includes ua ''iOS'' \<and> \<not> js_includes ua ''iPhone'' \<and> \<not> js_includes ua ''iPad''
        \<longrightarrow> getOS ua = Inr ''Unknown'')"
proof -
  obtain v where v: "mac_version ua = Inr v" using mac_version_total by blast
  show ?thesis
    using not_Windows_NT [of ua] by (auto simp: getOS_def v)
qed

text \<open>Claim C8, the amended statement at one user-agent string for each branch.\<close>

theorem getOS_first_match_witness:
  "getOS ''Mozilla/5.0 (Windows NT 10.0; Win64; x64)'' = Inr ''Windows 10/11''
   \<and> getOS ''Mozilla/5.0 (Windows NT 6.1; Win64; x64)'' = Inr ''Windows''
   \<and> (\<exists>v. getOS ''Mozilla/5.0 (iPhone; CPU iPhone OS 16_0 like Mac OS X)'' = Inr (''macOS '' @ v))
   \<and> getOS ''Mozilla/5.0 (iPhone; CPU iPhone OS 16_0 like Mac OS X)'' \<noteq> Inr ''iOS''
   \<and> getOS ''Mozilla/5.0 (Linux; Android 13; Pixel 7)'' = Inr ''Linux''
   \<and> getOS ''Dalvik/2.1.0 (Android 13; Pixel 7)'' = Inr ''Android''
   \<and> getOS ''MyApp/1.0 (iPad; iOS 16.0)'' = Inr ''iOS''
   \<and> getOS ''curl/8.4.0'' = Inr ''Unknown''"
proof -
  let ?w10 = "''Mozilla/5.0 (Windows NT 10.0; Win64; x64)''"
  let ?w7 = "''Mozilla/5.0 (Windows NT 6.1; Win64; x64)''"
  let ?ip = "''Mozilla/5.0 (iPhone; CPU iPhone OS 16_0 like Mac OS X)''"
  let ?lx = "''Mozilla/5.0 (Linux; Android 13; Pixel 7)''"
  let ?an = "''Dalvik/2.1.0 (Android 13; Pixel 7)''"
  let ?io = "''MyApp/1.0 (iPad; iOS 16.0)''"
  let ?cu = "''curl/8.4.0''"
  have 1: "js_includes ?w10 ''Windows NT 10''" by code_simp
  have 2: "\<not> js_includes ?w7 ''Windows NT 10'' \<and> js_includes ?w7 ''Windows''" by code_simp
  have 3: "\<not> js_includes ?ip ''Windows'' \<and> js_includes ?ip ''Mac OS X''" by code_simp
  have 4: "\<not> js_includes ?lx ''Windows'' \<and> \<not> js_includes ?lx ''Mac OS X''
      \<and> js_includes ?lx ''Linux''" by code_simp
  have 5: "\<not> js_includes ?an ''Windows'' \<and> \<not> js_includes ?an ''Mac OS X''
      \<and> \<not> js_includes ?an ''Linux'' \<and> js_includes ?an ''Android''" by code_simp
  have 6: "\<not> js_includes ?io ''Windows'' \<and> \<not> js_includes ?io ''Mac OS X''
      \<and> \<not> js_includes ?io ''Linux'' \<and> \<not> js_includes ?io ''Android''
      \<and> (js_includes ?io ''iOS'' \<or> js_includes ?io ''iPhone'' \<or> js_includes ?io ''iPad'')"
    by code_simp
  have 7: "\<not> js_includes ?cu ''Windows'' \<and> \<not> js_includes ?cu ''Mac OS X''
      \<and> \<not> js_includes ?cu ''Linux'' \<and> \<not> js_includes ?cu ''Android''
      \<and> \<not> js_includes ?cu ''iOS'' \<and> \<not> js_includes ?cu ''iPhone'' \<and> \<not> js_includes ?cu ''iPad''"
    by code_simp
  from getOS_first_match [of ?w10] 1 have a: "getOS ?w10 = Inr ''Windows 10/11''" by blast
  from getOS_first_match [of ?w7] 2 have b: "getOS ?w7 = Inr ''Windows''" by blast
  from getOS_first_match [of ?ip] 3
  have c: "(\<exists>v. getOS ?ip = Inr (''macOS '' @ v)) \<and> getOS ?ip \<noteq> Inr ''iOS''" by blast
  from getOS_first_match [of ?lx] 4 have d: "getOS ?lx = Inr ''Linux''" by blast
  from getOS_first_match [of ?an] 5 have e: "getOS ?an = Inr ''Android''" by blast
  from getOS_first_match [of ?io] 6 have f: "getOS ?io = Inr ''iOS''" by blast
  from getOS_first_match [of ?cu] 7 have g: "getOS ?cu = Inr ''Unknown''" by blast
  from a b c d e f g show ?thesis by blast
qed

section \<open>Day part\<close>

text \<open>
  Claim C5: the day part is \<open>Morning\<close> exactly on the hours of \<open>[5,12)\<close>, \<open>Afternoon\<close> exactly
  on \<open>[12,17)\<close>, \<open>Evening\<close> exactly on \<open>[17,21)\<close> and \<open>Night\<close> on every other hour; on the
  hours 0, 4, 5, 11, 12, 16, 17, 20, 21, 23 it is Night, Night, Morning, Morning,
  Afternoon, Afternoon, Evening, Evening, Night, Night.
\<close>

theorem getTimeOfDay_buckets:
  "(getTimeOfDay h = ''Morning'') = (5 \<le> h \<and> h < 12)
   \<and> (getTimeOfDay h = ''Afternoon'') = (12 \<le> h \<and> h < 17)
   \<and> (getTimeOfDay h = ''Evening'') = (17 \<le> h \<and> h < 21)
   \<and> (getTimeOfDay h = ''Night'') = (h < 5 \<or> 21 \<le> h)
   \<and> map getTimeOfDay [0, 4, 5, 11, 12, 16, 17, 20, 21, 23] =
       [''Night'', ''Night'', ''Morning'', ''Morning'', ''Afternoon'', ''Afternoon'',
        ''Evening'', ''Evening'', ''Night'', ''Night'']"
  by (auto simp add: getTimeOfDay_def)

section \<open>Geolocation enrichment and merge\<close>




text \<open>
  Claim C9, as stated: after every successful fetch and parse the object returned
  has the three keys \<open>country\<close>, \<open>city\<close> and \<open>countryCode\<close>. The body \<open>null\<close> parses, and
  reading a property of \<open>null\<close> raises inside the \<open>try\<close> block: the object returned is
  empty and the error is logged.
\<close>

theorem getGeolocation_success_counterexample:
  "getGeolocation (Fulfilled \<lparr>status = 200, json_body = Fulfilled JNull\<rparr>)
     = (Fulfilled [], [(''Failed to get geolocation:'', TypeError)])"
  by code_simp

text \<open>
  Claim C9, amended: after every successful fetch and parse whose value is not \<open>null\<close>,
  the object returned has exactly the keys \<open>country\<close>, \<open>city\<close> and \<open>countryCode\<close>, bound to
  the properties \<open>country_name\<close>, \<open>city\<close> and \<open>country_code\<close> of the body, and nothing is
  logged. A property that the body lacks reads as \<open>undefined\<close>, and its key is bound to
  \<open>undefined\<close> in the object returned.
\<close>

theorem getGeolocation_success:
  assumes "json_body resp = Fulfilled data" and "data \<noteq> JNull" and "data \<noteq> JUndefined"
  shows "getGeolocation (Fulfilled resp) =
      (Fulfilled [(''country'', prop_of data ''country_name''), (''city'', prop_of data ''city''),
                  (''countryCode'', prop_of data ''country_code'')], [])
    \<and> (\<forall>ps k. data = JObj ps \<and> map_of ps k = None \<longrightarrow> prop_of data k = JUndefined)
    \<and> (\<forall>ps k v. data = JObj ps \<and> map_of ps k = Some v \<longrightarrow> prop_of data k = v)"
  using assms by (auto simp: getGeolocation_def geo_try_def get_prop_def nullish_def)

text \<open>Claim C9, the amended statement at a body without \<open>country_code\<close>.\<close>

theorem getGeolocation_success_witness:
  "getGeolocation (Fulfilled \<lparr>status = 200,
      json_body = Fulfilled (JObj [(''city'', JStr ''Accra''), (''country_name'', JStr ''Ghana'')])\<rparr>)
     = (Fulfilled [(''country'', JStr ''Ghana''), (''city'', JStr ''Accra''),
                   (''countryCode'', JUndefined)], [])"
proof -
  let ?data = "JObj [(''city'', JStr ''Accra''), (''country_name'', JStr ''Ghana'')]"
  let ?resp = "\<lparr>status = 200, json_body = Fulfilled ?data\<rparr>"
  have 1: "json_body ?resp = Fulfilled ?data" by simp
  have 2: "?data \<noteq> JNull" "?data \<noteq> JUndefined" by simp_all
  from getGeolocation_success [OF 1 2] show ?thesis by simp
qed

text \<open>
  Claim C4, as stated: the merged record keeps every field of the captured record and
  adds the enrichment fields that are present; the enrichment fields that are absent
  are omitted from it and never set to \<open>null\<close>. When the body of the reply lacks \<open>city\<close>
  the merged location has the key \<open>city\<close>, bound to \<open>undefined\<close>; when the body holds
  \<open>null\<close> under \<open>country_name\<close> the merged location has \<open>country\<close> bound to \<open>null\<close>.
\<close>

theorem merge_metadata_frame_counterexample:
  "collectTechnicalMetadata sample_env = Inr sample_metadata
   \<and> fst (getGeolocation (Fulfilled \<lparr>status = 200, json_body = Fulfilled
        (JObj [(''country_name'', JNull), (''country_code'', JStr ''GH'')])\<rparr>))
      = Fulfilled [(''country'', JNull), (''city'', JUndefined), (''countryCode'', JStr ''GH'')]
   \<and> location (merge_metadata sample_metadata
        [(''country'', JNull), (''city'', JUndefined), (''countryCode'', JStr ''GH'')])
      = [(''timezone'', JStr ''Africa/Accra''), (''language'', JStr ''en-GB''),
         (''country'', JNull), (''city'', JUndefined), (''countryCode'', JStr ''GH'')]
   \<and> map_of (location (merge_metadata sample_metadata
        [(''country'', JNull), (''city'', JUndefined), (''countryCode'', JStr ''GH'')])) ''city''
      = Some JUndefined
   \<and> map_of (location (merge_metadata sample_metadata
        [(''country'', JNull), (''city'', JUndefined), (''countryCode'', JStr ''GH'')])) ''country''
      = Some JNull"
  by code_simp

text \<open>
  Claim C4, amended: for every record captured synchronously and every object the
  enrichment returns, the merged record has the browser, device, session and technical
  parts of the captured record, and its location is the captured location followed by
  the properties of the enrichment object; the two key sets are disjoint, so every
  captured key keeps its value. After a reply whose body parses to a value other than
  \<open>null\<close>, the merged location has all three keys \<open>country\<close>, \<open>city\<close> and \<open>countryCode\<close>,
  bound to what the body holds under \<open>country_name\<close>, \<open>city\<close> and \<open>country_code\<close>: to
  \<open>undefined\<close> where the body lacks the field and to \<open>null\<close> where the body holds \<open>null\<close>.
  The enrichment object is empty exactly when there is no such reply, and only then
  are the three keys absent from the merged location.
\<close>

theorem merge_metadata_frame:
  assumes "collectTechnicalMetadata env = Inr t" and "fst (getGeolocation net) = Fulfilled g"
  shows "browser (merge_metadata t g) = browser t
    \<and> device (merge_metadata t g) = device t
    \<and> session (merge_metadata t g) = session t
    \<and> technical (merge_metadata t g) = technical t
    \<and> location (merge_metadata t g) = location t @ g
    \<and> fst ` set (location t) \<inter> fst ` set g = {}
    \<and> (\<forall>k \<in> fst ` set (location t).
          map_of (location (merge_metadata t g)) k = map_of (location t) k)
    \<and> (\<forall>resp data. net = Fulfilled resp \<and> json_body resp = Fulfilled data
          \<and> data \<noteq> JNull \<and> data \<noteq> JUndefined \<longrightarrow>
          (\<forall>k f. (k, f) \<in> {(''country'', ''country_name''), (''city'', ''city''),
                            (''countryCode'', ''country_code'')} \<longrightarrow>
             map_of (location (merge_metadata t g)) k = Some (prop_of data f)
             \<and> (\<forall>ps. data = JObj ps \<and> map_of ps f = None \<longrightarrow>
                  map_of (location (merge_metadata t g)) k = Some JUndefined)
             \<and> (\<forall>ps. data = JObj ps \<and> map_of ps f = Some JNull \<longrightarrow>
                  map_of (location (merge_metadata t g)) k = Some JNull)))
    \<and> (g = [] \<longleftrightarrow>
         \<not> (\<exists>resp data. net = Fulfilled resp \<and> json_body resp = Fulfilled data
               \<and> data \<noteq> JNull \<and> data \<noteq> JUndefined))
    \<and> (g = [] \<longrightarrow> location (merge_metadata t g) = location t
          \<and> (\<forall>k \<in> {''country'', ''city'', ''countryCode''}.
                map_of (location (merge_metadata t g)) k = None))"
proof -
  note loc = collectTechnicalMetadata_location [OF assms(1)]
  have shape: "g = [] \<or> (\<exists>x y z. g = [(''country'', x), (''city'', y), (''countryCode'', z)])"
    using getGeolocation_shape [of net] assms(2) by auto
  have m: "location (merge_metadata t g) = location t @ g"
    unfolding merge_metadata_def using obj_spread_location [OF loc shape] by simp
  have rest: "browser (merge_metadata t g) = browser t" "device (merge_metadata t g) = device t"
    "session (merge_metadata t g) = session t" "technical (merge_metadata t g) = technical t"
    by (simp_all add: merge_metadata_def)
  have disj: "fst ` set (location t) \<inter> fst ` set g = {}"
    using shape unfolding loc by auto
  have kept: "\<forall>k \<in> fst ` set (location t).
      map_of (location (merge_metadata t g)) k = map_of (location t) k"
    using shape unfolding m loc by auto
  have empty: "g = [] \<longleftrightarrow>
      \<not> (\<exists>resp data. net = Fulfilled resp \<and> json_body resp = Fulfilled data
            \<and> data \<noteq> JNull \<and> data \<noteq> JUndefined)"
    using getGeolocation_empty_iff [of net] assms(2) by simp
  have none: "g = [] \<longrightarrow> location (merge_metadata t g) = location t
      \<and> (\<forall>k \<in> {''country'', ''city'', ''countryCode''}.
            map_of (location (merge_metadata t g)) k = None)"
    unfolding m loc by simp
  have added: "map_of (location (merge_metadata t g)) k = Some (prop_of data f)
      \<and> (\<forall>ps. data = JObj ps \<and> map_of ps f = None \<longrightarrow>
            map_of (location (merge_metadata t g)) k = Some JUndefined)
      \<and> (\<forall>ps. data = JObj ps \<and> map_of ps f = Some JNull \<longrightarrow>
            map_of (location (merge_metadata t g)) k = Some JNull)"
    if n: "net = Fulfilled resp" "json_body resp = Fulfilled data" "data \<noteq> JNull"
      "data \<noteq> JUndefined"
      and kf: "(k, f) \<in> {(''country'', ''country_name''), (''city'', ''city''),
                          (''countryCode'', ''country_code'')}"
    for resp data k f
  proof -
    have g: "g = [(''country'', prop_of data ''country_name''), (''city'', prop_of data ''city''),
                  (''countryCode'', prop_of data ''country_code'')]"
      using getGeolocation_parsed [OF n(2,3,4)] assms(2) n(1) by simp
    have "map_of (location t @ g) k = Some (prop_of data f)"
      using kf unfolding loc g by auto
    then have v: "map_of (location (merge_metadata t g)) k = Some (prop_of data f)"
      by (simp only: m)
    show ?thesis unfolding v by auto
  qed
  have all_added: "\<forall>resp data. net = Fulfilled resp \<and> json_body resp = Fulfilled data
          \<and> data \<noteq> JNull \<and> data \<noteq> JUndefined \<longrightarrow>
          (\<forall>k f. (k, f) \<in> {(''country'', ''country_name''), (''city'', ''city''),
                            (''countryCode'', ''country_code'')} \<longrightarrow>
             map_of (location (merge_metadata t g)) k = Some (prop_of data f)
             \<and> (\<forall>ps. data = JObj ps \<and> map_of ps f = None \<longrightarrow>
                  map_of (location (merge_metadata t g)) k = Some JUndefined)
             \<and> (\<forall>ps. data = JObj ps \<and> map_of ps f = Some JNull \<longrightarrow>
                  map_of (location (merge_metadata t g)) k = Some JNull))"
    using added by (intro allI impI) (elim conjE, rule added)
  show ?thesis
    by (intro conjI) (fact rest m disj kept all_added empty none)+
qed

text \<open>
  Claim C4, the amended statement at a captured record, merged with the enrichment of
  a body without \<open>city\<close> and with the empty enrichment of a failed request.
\<close>

theorem merge_metadata_frame_witness:
  "collectTechnicalMetadata sample_env = Inr sample_metadata
   \<and> location (merge_metadata sample_metadata
        [(''country'', JStr ''Ghana''), (''city'', JUndefined), (''countryCode'', JStr ''GH'')])
      = [(''timezone'', JStr ''Africa/Accra''), (''language'', JStr ''en-GB''),
         (''country'', JStr ''Ghana''), (''city'', JUndefined), (''countryCode'', JStr ''GH'')]
   \<and> map_of (location (merge_metadata sample_metadata
        [(''country'', JStr ''Ghana''), (''city'', JUndefined), (''countryCode'', JStr ''GH'')]))
        ''city'' = Some JUndefined
   \<and> location (merge_metadata sample_metadata []) = location sample_metadata
   \<and> map_of (location (merge_metadata sample_metadata [])) ''city'' = None"
proof -
  let ?data = "JObj [(''country_name'', JStr ''Ghana''), (''country_code'', JStr ''GH'')]"
  let ?resp = "\<lparr>status = 200, json_body = Fulfilled ?data\<rparr>"
  let ?g = "[(''country'', JStr ''Ghana''), (''city'', JUndefined), (''countryCode'', JStr ''GH'')]"
  have g: "fst (getGeolocation (Fulfilled ?resp)) = Fulfilled ?g"
    by code_simp
  have e: "fst (getGeolocation (Rejected (OtherError ''Failed to fetch''))) = Fulfilled []"
    by code_simp
  note ok = merge_metadata_frame [OF sample_capture g]
  note failed = merge_metadata_frame [OF sample_capture e]
  have 1: "location (merge_metadata sample_metadata ?g) = location sample_metadata @ ?g"
    using ok by blast
  have d: "json_body ?resp = Fulfilled ?data" "?data \<noteq> JNull" "?data \<noteq> JUndefined"
    "map_of [(''country_name'', JStr ''Ghana''), (''country_code'', JStr ''GH'')] ''city'' = None"
    by simp_all
  have 2: "map_of (location (merge_metadata sample_metadata ?g)) ''city'' = Some JUndefined"
    using ok d by blast
  have 3: "location (merge_metadata sample_metadata []) = location sample_metadata
      \<and> map_of (location (merge_metadata sample_metadata [])) ''city'' = None"
    using failed by blast
  from 1 2 3 show ?thesis by (simp add: sample_capture sample_metadata_def)
qed

end
